theory Spec2Isabelle
  imports Complex_Main
begin

section \<open>Stress fibre scores: a shallow embedding of Stress\_Fibre\_Scores.py\<close>

text \<open>
  The script is a Jython (Python 2) ImageJ script. Python integers are modelled as
  \<open>int\<close>, with \<open>/\<close> on two integers as floor division (\<open>div\<close>). Python floats and
  Java doubles are idealised as \<open>real\<close>: rounding is not modelled. A Python exception is
  a value of type \<open>error\<close>, and a computation that may raise returns \<open>error + 'a\<close>.
\<close>

datatype error = ValueError | ZeroDivisionError | NameError

subsection \<open>The Kirsch kernels\<close>

text \<open>The table \<open>dirKernels\<close>, each kernel as its nine weights in row-major order.\<close>

definition dirKernels :: "int list list" where
  "dirKernels = [
     [5,5,5,
      -3,0,-3,
      -3,-3,-3],
     [-3,5,5,
      -3,0,5,
      -3,-3,-3],
     [-3,-3,5,
      -3,0,5,
      -3,-3,5],
     [-3,-3,-3,
      -3,0,5,
      -3,5,5],
     [-3,-3,-3,
      5,0,-3,
      5,5,-3],
     [-3,-3,-3,
      -3,0,-3,
      5,5,5],
     [5,5,-3,
      5,0,-3,
      -3,-3,-3],
     [5,-3,-3,
      5,0,-3,
      5,-3,-3]
   ]"

text \<open>
  A rotation of a 3x3 kernel by 45 degrees moves every weight of the outer ring one cell
  along the ring and keeps the centre. \<open>rot45\<close> turns clockwise as the kernel is
  printed (the top row moves towards the right column), \<open>rot45_ccw\<close> the other way.
  These two are not in the source: they state what "rotated by 45 degrees" means for the
  comparison with the table.
\<close>

fun rot45 :: "int list \<Rightarrow> int list" where
  "rot45 [a, b, c, d, e, f, g, h, i] = [d, a, b, g, e, c, h, i, f]"
| "rot45 k = k"

fun rot45_ccw :: "int list \<Rightarrow> int list" where
  "rot45_ccw [a, b, c, d, e, f, g, h, i] = [b, c, f, a, e, i, d, g, h]"
| "rot45_ccw k = k"

definition rotations :: "(int list \<Rightarrow> int list) \<Rightarrow> int list \<Rightarrow> int list list" where
  "rotations r k = map (\<lambda>i. (r ^^ i) k) [0..<8]"

subsection \<open>Python list helpers\<close>

text \<open>\<open>max(xs)\<close> and \<open>min(xs)\<close> keep the first extremal element; on the empty list
  Python raises, the script never calls them there (there are eight kernels).\<close>

fun py_max :: "real list \<Rightarrow> real" where
  "py_max [] = 0"
| "py_max (x # xs) = fold (\<lambda>v m. if v > m then v else m) xs x"

fun py_min :: "real list \<Rightarrow> real" where
  "py_min [] = 0"
| "py_min (x # xs) = fold (\<lambda>v m. if v < m then v else m) xs x"

text \<open>\<open>xs.index(v)\<close>: the first position of \<open>v\<close>, ValueError when absent.\<close>

fun py_index :: "real list \<Rightarrow> real \<Rightarrow> error + nat" where
  "py_index [] v = Inl ValueError"
| "py_index (x # xs) v =
     (if x = v then Inr 0
      else (case py_index xs v of Inl e \<Rightarrow> Inl e | Inr i \<Rightarrow> Inr (Suc i)))"

subsection \<open>Scoring and the principal direction\<close>

definition normAngle :: "real \<Rightarrow> real" where
  "normAngle theta =
     (let theta1 = (if theta < 0 then 2 * pi + theta else theta)
      in if theta1 > pi then theta1 - pi else theta1)"

text \<open>The angle the script assigns to the index \<open>maxi\<close> of the maximal response among
  \<open>n\<close> responses, before and after folding.\<close>

definition rawAngle :: "nat \<Rightarrow> nat \<Rightarrow> real" where
  "rawAngle maxi n = real maxi * ((2 * pi) / real n) + (pi / 2)"

definition principalDirection :: "nat \<Rightarrow> nat \<Rightarrow> real" where
  "principalDirection maxi n = normAngle (rawAngle maxi n)"

text \<open>The score of the eight directional responses: float division by zero raises
  ZeroDivisionError in Python.\<close>

definition tileScore :: "real list \<Rightarrow> error + real" where
  "tileScore edgeDir =
     (let edgeSum = sum_list edgeDir;
          edgeMax = py_max edgeDir;
          edgeMin = py_min edgeDir
      in if edgeSum - edgeMin = 0 then Inl ZeroDivisionError
         else Inr (((edgeMax - edgeMin) / (edgeSum - edgeMin)) * 8))"

text \<open>Whether all responses are the same number.\<close>

fun allEqual :: "real list \<Rightarrow> bool" where
  "allEqual [] = True"
| "allEqual (x # ys) = list_all (\<lambda>y. y = x) ys"

subsection \<open>Python built-ins: \<open>range\<close>, \<open>int\<close>, \<open>str\<close>\<close>

function range_up :: "int \<Rightarrow> int \<Rightarrow> int \<Rightarrow> int list" where
  "range_up i stop step = (if 0 < step \<and> i < stop then i # range_up (i + step) stop step else [])"
  by pat_completeness auto
termination
  by (relation "measure (\<lambda>(i, stop, step). nat (stop - i))") auto

function range_down :: "int \<Rightarrow> int \<Rightarrow> int \<Rightarrow> int list" where
  "range_down i stop step = (if step < 0 \<and> stop < i then i # range_down (i + step) stop step else [])"
  by pat_completeness auto
termination
  by (relation "measure (\<lambda>(i, stop, step). nat (i - stop))") auto

declare range_up.simps [simp del]
declare range_down.simps [simp del]

text \<open>\<open>range(start, stop, step)\<close> of Python 2: a list; a zero step raises ValueError.\<close>

definition py_range :: "int \<Rightarrow> int \<Rightarrow> int \<Rightarrow> error + int list" where
  "py_range start stop step =
     (if step = 0 then Inl ValueError
      else if 0 < step then Inr (range_up start stop step)
      else Inr (range_down start stop step))"

text \<open>\<open>int(r)\<close> on a float truncates towards zero.\<close>

definition py_int :: "real \<Rightarrow> int" where
  "py_int r = (if 0 \<le> r then \<lfloor>r\<rfloor> else \<lceil>r\<rceil>)"

fun digits :: "nat \<Rightarrow> string" where
  "digits n = (if n < 10 then [char_of (48 + n)] else digits (n div 10) @ [char_of (48 + n mod 10)])"

declare digits.simps [simp del]

definition str :: "int \<Rightarrow> string" where
  "str i = (if i < 0 then CHR ''-'' # digits (nat (- i)) else digits (nat i))"

subsection \<open>The ImageJ objects the script uses\<close>

text \<open>
  ImageJ is a library, not part of the script. Its image processors are an arbitrary type
  \<open>'ip\<close>, and the methods the script calls on them are the fields of \<open>imagej\<close>, a
  parameter of every function below. \<open>duplicate\<close> is the identity of the model, where
  nothing is mutated in place: \<open>ij_blur sigma ip\<close> is the processor \<open>ip.blurGaussian(sigma)\<close>
  leaves, \<open>ij_subtract ip sub\<close> the one \<open>ip.copyBits(sub, 0, 0, Blitter.SUBTRACT)\<close> leaves,
  \<open>ij_crop r ip\<close> the result of \<open>ip.setRoi(r); ip.crop()\<close>, \<open>ij_convolve k ip\<close> the one
  \<open>ip.convolve(k, 3, 3)\<close> leaves and \<open>ij_mean ip\<close> is \<open>ip.getStatistics().mean\<close>.
\<close>

record roi =
  roi_x :: int
  roi_y :: int
  roi_width :: int
  roi_height :: int

record 'ip imagej =
  ij_getWidth :: "'ip \<Rightarrow> int"
  ij_getHeight :: "'ip \<Rightarrow> int"
  ij_blur :: "real \<Rightarrow> 'ip \<Rightarrow> 'ip"
  ij_subtract :: "'ip \<Rightarrow> 'ip \<Rightarrow> 'ip"
  ij_crop :: "roi \<Rightarrow> 'ip \<Rightarrow> 'ip"
  ij_convolve :: "int list \<Rightarrow> 'ip \<Rightarrow> 'ip"
  ij_mean :: "'ip \<Rightarrow> real"

record calibration =
  pixelWidth :: real
  pixelHeight :: real

record colour =
  red :: real
  green :: real
  blue :: real
  alpha :: real

record arrow =
  arrow_x1 :: real
  arrow_y1 :: real
  arrow_x2 :: real
  arrow_y2 :: real
  arrow_open :: bool
  arrow_doubleHeaded :: bool
  arrow_strokeWidth :: real
  arrow_headSize :: real

text \<open>What the script adds to an overlay: a tile rectangle, an arrow, a text label.\<close>

datatype primitive =
  RectRoi roi colour
| ArrowRoi arrow colour
| TextRoi int int string colour

text \<open>One row of the results table, with the seven columns the script sets.\<close>

record tile_row =
  row_Image :: string
  row_Tile :: int
  row_X :: real
  row_Y :: real
  row_FibreIntensity :: real
  row_PrincipalDirection :: real
  row_Score :: real

text \<open>
  An opened image: its title, its calibration, the number of slices and, for a slice
  argument \<open>z\<close>, the processor \<open>stack.getProcessor(imp.getStackIndex(2, z, 1))\<close>.
\<close>

record 'ip imageplus =
  imp_title :: string
  imp_cal :: calibration
  imp_nSlices :: int
  imp_processor :: "int \<Rightarrow> 'ip"

text \<open>
  The state the script mutates: the global results table \<open>rt\<close>, the global \<open>cal\<close>
  (unbound until \<open>run\<close> assigns it), the messages shown by \<open>IJ.error\<close> and the images
  shown, each with its title and overlay.
\<close>

record 'ip globals =
  rt :: "tile_row list"
  cal :: "calibration option"
  errors :: "string list"
  shown :: "(string \<times> 'ip \<times> primitive list) list"

definition blank_row :: tile_row where
  "blank_row = \<lparr>row_Image = [], row_Tile = 0, row_X = 0, row_Y = 0,
     row_FibreIntensity = 0, row_PrincipalDirection = 0, row_Score = 0\<rparr>"

text \<open>The \<open>rt.setValue(column, row, value)\<close> calls of one tile, taken together: they
  write row \<open>row\<close>, and the table grows up to that row when it is not there yet.\<close>

definition setRow :: "tile_row list \<Rightarrow> nat \<Rightarrow> tile_row \<Rightarrow> tile_row list" where
  "setRow rows row r =
     (if row < length rows then rows[row := r]
      else rows @ replicate (row - length rows) blank_row @ [r])"

definition tileRoiColour :: colour where
  "tileRoiColour = \<lparr>red = 1, green = 1, blue = 0, alpha = 1 / 4\<rparr>"

definition cyan :: colour where
  "cyan = \<lparr>red = 0, green = 1, blue = 1, alpha = 1\<rparr>"

subsection \<open>The functions of the script\<close>

definition process :: "'ip imagej \<Rightarrow> 'ip \<Rightarrow> 'ip" where
  "process api inip =
     (let ip = inip;
          sub = inip;
          sigmaPx = 2;
          ip = ij_blur api sigmaPx ip;
          sub = ij_blur api (sigmaPx * 1.4) sub
      in ij_subtract api ip sub)"

definition edgeDirections :: "'ip imagej \<Rightarrow> 'ip \<Rightarrow> real list" where
  "edgeDirections api ip = map (\<lambda>k. ij_mean api (ij_convolve api k ip)) dirKernels"

text \<open>
  The body of the two tile loops, after the boundary check: the loop state is the globals,
  the overlay \<open>ol\<close> and the local \<open>row\<close>.
\<close>

definition tileBody ::
  "'ip imagej \<Rightarrow> 'ip \<Rightarrow> string \<Rightarrow> int \<Rightarrow> int \<Rightarrow> int \<Rightarrow> int \<Rightarrow> int \<Rightarrow> int \<Rightarrow>
   'ip globals \<times> primitive list \<times> int \<Rightarrow> error + 'ip globals \<times> primitive list \<times> int" where
  "tileBody api ip title step overlap x y ox oy s =
     (case s of (g, ol, row) \<Rightarrow>
      let tileRoi = \<lparr>roi_x = x - overlap, roi_y = y - overlap,
                     roi_width = step + overlap * 2, roi_height = step + overlap * 2\<rparr>;
          tile = ij_crop api tileRoi ip;
          fibreI = ij_mean api tile;
          edgeDir = edgeDirections api tile
      in case tileScore edgeDir of
           Inl e \<Rightarrow> Inl e
         | Inr score \<Rightarrow>
            (case py_index edgeDir (py_max edgeDir) of
               Inl e \<Rightarrow> Inl e
             | Inr maxi \<Rightarrow>
                (case cal g of
                   None \<Rightarrow> Inl NameError
                 | Some c \<Rightarrow>
                    let theta = principalDirection maxi (length edgeDir);
                        r = \<lparr>row_Image = title, row_Tile = row,
                             row_X = real_of_int ox * pixelWidth c,
                             row_Y = real_of_int oy * pixelHeight c,
                             row_FibreIntensity = fibreI,
                             row_PrincipalDirection = theta,
                             row_Score = score\<rparr>;
                        g' = g\<lparr>rt := setRow (rt g) (nat row) r\<rparr>;
                        scale = 20;
                        dx = cos theta * scale;
                        dy = sin theta * scale;
                        arr = \<lparr>arrow_x1 = real_of_int ox - dx, arrow_y1 = real_of_int oy + dy,
                               arrow_x2 = real_of_int ox + dx, arrow_y2 = real_of_int oy - dy,
                               arrow_open = True, arrow_doubleHeaded = True,
                               arrow_strokeWidth = 4, arrow_headSize = 4\<rparr>;
                        f = max 0 (min score 1);
                        arrowColour = \<lparr>red = 1 - f, green = f, blue = f / 2, alpha = 1\<rparr>;
                        label = TextRoi (x + step div 2 - 10) (y + 6) (str row) cyan
                    in Inr (g', ol @ [RectRoi tileRoi tileRoiColour, ArrowRoi arr arrowColour, label],
                            row + 1))))"

text \<open>
  The inner and the outer loop over the anchors. The body is a parameter, so that the
  order of the visits can be stated for any body; \<open>tiledAnalysis\<close> runs them with
  \<open>tileBody\<close>. A tile whose centre is beyond the last pixel is skipped (\<open>continue\<close>).
\<close>

fun xLoop ::
  "(int \<Rightarrow> int \<Rightarrow> int \<Rightarrow> int \<Rightarrow> 's \<Rightarrow> error + 's) \<Rightarrow> int \<Rightarrow> int \<Rightarrow> int \<Rightarrow> int \<Rightarrow> int list \<Rightarrow> 's
   \<Rightarrow> error + 's" where
  "xLoop body W H step y [] s = Inr s"
| "xLoop body W H step y (x # xs) s =
     (let ox = x + step div 2;
          oy = y + step div 2
      in if ox > W - 1 \<or> oy > H - 1 then xLoop body W H step y xs s
         else (case body x y ox oy s of
                 Inl e \<Rightarrow> Inl e
               | Inr s' \<Rightarrow> xLoop body W H step y xs s'))"

fun yLoop ::
  "(int \<Rightarrow> int \<Rightarrow> int \<Rightarrow> int \<Rightarrow> 's \<Rightarrow> error + 's) \<Rightarrow> int \<Rightarrow> int \<Rightarrow> int \<Rightarrow> int \<Rightarrow> int list \<Rightarrow> 's
   \<Rightarrow> error + 's" where
  "yLoop body W H step overlap [] s = Inr s"
| "yLoop body W H step overlap (y # ys) s =
     (case py_range overlap (W - 1) step of
        Inl e \<Rightarrow> Inl e
      | Inr xs \<Rightarrow>
         (case xLoop body W H step y xs s of
            Inl e \<Rightarrow> Inl e
          | Inr s' \<Rightarrow> yLoop body W H step overlap ys s'))"

definition tileLoops ::
  "(int \<Rightarrow> int \<Rightarrow> int \<Rightarrow> int \<Rightarrow> 's \<Rightarrow> error + 's) \<Rightarrow> int \<Rightarrow> int \<Rightarrow> int \<Rightarrow> int \<Rightarrow> 's \<Rightarrow> error + 's" where
  "tileLoops body W H step overlap s =
     (case py_range overlap (H - 1) step of
        Inl e \<Rightarrow> Inl e
      | Inr ys \<Rightarrow> yLoop body W H step overlap ys s)"

text \<open>The tile parameters: \<open>nRows = 24\<close>, \<open>step = int(H/nRows)\<close> and
  \<open>overlap = int(step/5.0)\<close>.\<close>

definition nRows :: int where
  "nRows = 24"

definition tileStep :: "int \<Rightarrow> int" where
  "tileStep H = H div nRows"

definition tileOverlap :: "int \<Rightarrow> int" where
  "tileOverlap step = py_int (real_of_int step / 5)"

definition tiledAnalysis ::
  "'ip imagej \<Rightarrow> 'ip \<Rightarrow> primitive list \<Rightarrow> string \<Rightarrow> 'ip globals
   \<Rightarrow> error + 'ip globals \<times> primitive list" where
  "tiledAnalysis api ip ol title g =
     (let W = ij_getWidth api ip;
          H = ij_getHeight api ip
      in if W \<noteq> H then Inr (g\<lparr>errors := errors g @ [''Image is not square'']\<rparr>, ol)
         else
          let row = int (length (rt g));
              step = tileStep H;
              overlap = tileOverlap step
          in case tileLoops (tileBody api ip title step overlap) W H step overlap (g, ol, row) of
               Inl e \<Rightarrow> Inl e
             | Inr (g', ol', row') \<Rightarrow> Inr (g', ol'))"

text \<open>The loop of \<open>run\<close> over the slices, with the locals \<open>maxM\<close> and \<open>maxZ\<close>.\<close>

fun sliceLoop :: "'ip imagej \<Rightarrow> 'ip imageplus \<Rightarrow> int list \<Rightarrow> real \<times> int \<Rightarrow> real \<times> int" where
  "sliceLoop api imp [] (maxM, maxZ) = (maxM, maxZ)"
| "sliceLoop api imp (z # zs) (maxM, maxZ) =
     (let ip = imp_processor imp z;
          v = ij_mean api ip
      in if v > maxM then sliceLoop api imp zs (v, z)
         else sliceLoop api imp zs (maxM, maxZ))"

definition selectSlice :: "'ip imagej \<Rightarrow> 'ip imageplus \<Rightarrow> real \<times> int" where
  "selectSlice api imp = sliceLoop api imp (range_up 0 (imp_nSlices imp) 1) (- 1, - 1)"

definition run :: "'ip imagej \<Rightarrow> 'ip imageplus \<Rightarrow> 'ip globals \<Rightarrow> error + 'ip globals" where
  "run api imp g =
     (let g1 = g\<lparr>cal := Some (imp_cal imp)\<rparr>;
          maxZ = snd (selectSlice api imp);
          actin = imp_processor imp maxZ;
          ol = [];
          title = imp_title imp @ ''-Z'' @ str maxZ;
          proc = process api actin
      in case tiledAnalysis api proc ol title g1 of
           Inl e \<Rightarrow> Inl e
         | Inr (g2, ol') \<Rightarrow> Inr (g2\<lparr>shown := shown g2 @ [(title, actin, ol')]\<rparr>))"

text \<open>
  The file system as \<open>fileHandler\<close> sees it: a regular file with its path and the images
  the importer opens from it, a directory with its entries, or neither.
\<close>

datatype 'ip fs_entry =
  RegularFile string "'ip imageplus list"
| Directory "'ip fs_entry list"
| Neither

definition endswith :: "string \<Rightarrow> string \<Rightarrow> bool" where
  "endswith s suf = (length suf \<le> length s \<and> drop (length s - length suf) s = suf)"

fun runImages :: "'ip imagej \<Rightarrow> 'ip imageplus list \<Rightarrow> 'ip globals \<Rightarrow> error + 'ip globals" where
  "runImages api [] g = Inr g"
| "runImages api (imp # imps) g =
     (case run api imp g of Inl e \<Rightarrow> Inl e | Inr g' \<Rightarrow> runImages api imps g')"

fun fileHandler :: "'ip imagej \<Rightarrow> 'ip fs_entry \<Rightarrow> 'ip globals \<Rightarrow> error + 'ip globals"
  and fileHandlerList :: "'ip imagej \<Rightarrow> 'ip fs_entry list \<Rightarrow> 'ip globals \<Rightarrow> error + 'ip globals" where
  "fileHandler api (RegularFile path images) g =
     (if endswith path ''.lif'' then runImages api images g else Inr g)"
| "fileHandler api (Directory files) g = fileHandlerList api files g"
| "fileHandler api Neither g = Inr g"
| "fileHandlerList api [] g = Inr g"
| "fileHandlerList api (f # fs) g =
     (case fileHandler api f g of Inl e \<Rightarrow> Inl e | Inr g' \<Rightarrow> fileHandlerList api fs g')"

text \<open>The script's top level: a fresh table, then the open image if there is one, else
  the chosen path.\<close>

definition initial :: "'ip globals" where
  "initial = \<lparr>rt = [], cal = None, errors = [], shown = []\<rparr>"

definition script :: "'ip imagej \<Rightarrow> 'ip imageplus option \<Rightarrow> 'ip fs_entry \<Rightarrow> error + 'ip globals" where
  "script api current path =
     (case current of
        None \<Rightarrow> fileHandler api path initial
      | Some imp \<Rightarrow> run api imp initial)"

subsection \<open>Notions used to state the properties\<close>

text \<open>Running a body over a list of tiles in order, stopping at the first exception.\<close>

fun visit :: "('t \<Rightarrow> 's \<Rightarrow> error + 's) \<Rightarrow> 't list \<Rightarrow> 's \<Rightarrow> error + 's" where
  "visit f [] s = Inr s"
| "visit f (t # ts) s = (case f t s of Inl e \<Rightarrow> Inl e | Inr s' \<Rightarrow> visit f ts s')"

text \<open>The anchors \<open>(x, y)\<close> that reach the loop body, in the order of the loops: the
  loops of the script, run with a body that only notes the anchor.\<close>

definition visitedTiles :: "int \<Rightarrow> int \<Rightarrow> int \<Rightarrow> int \<Rightarrow> error + (int \<times> int) list" where
  "visitedTiles W H step overlap =
     tileLoops (\<lambda>x y ox oy s. Inr (s @ [(x, y)])) W H step overlap []"





text \<open>The rectangle of the tile anchored at \<open>(x, y)\<close>.\<close>

definition tileRect :: "int \<Rightarrow> int \<Rightarrow> int \<Rightarrow> int \<Rightarrow> roi" where
  "tileRect step overlap x y =
     \<lparr>roi_x = x - overlap, roi_y = y - overlap,
      roi_width = step + 2 * overlap, roi_height = step + 2 * overlap\<rparr>"

text \<open>The tiles of an image of the given size that reach the loop body: none when the
  image is not square or the loops raise.\<close>

definition imageTiles :: "int \<Rightarrow> int \<Rightarrow> (int \<times> int) list" where
  "imageTiles W H =
     (if W \<noteq> H then []
      else (case visitedTiles W H (tileStep H) (tileOverlap (tileStep H)) of
              Inl e \<Rightarrow> []
            | Inr ts \<Rightarrow> ts))"

text \<open>
  What the loop body leaves for the tile anchored at \<open>(x, y)\<close> when it is the \<open>n\<close>-th
  row of the table: the row, and the three elements added to the overlay.
\<close>

definition tileRowOk ::
  "'ip imagej \<Rightarrow> 'ip \<Rightarrow> string \<Rightarrow> int \<Rightarrow> int \<Rightarrow> calibration \<Rightarrow> int \<Rightarrow> int \<Rightarrow> nat \<Rightarrow> tile_row \<Rightarrow> bool" where
  "tileRowOk api ip title step overlap c x y n r =
     (row_Image r = title \<and> row_Tile r = int n \<and>
      row_X r = real_of_int (x + step div 2) * pixelWidth c \<and>
      row_Y r = real_of_int (y + step div 2) * pixelHeight c \<and>
      row_FibreIntensity r = ij_mean api (ij_crop api (tileRect step overlap x y) ip) \<and>
      tileScore (edgeDirections api (ij_crop api (tileRect step overlap x y) ip)) = Inr (row_Score r) \<and>
      (\<exists>maxi. py_index (edgeDirections api (ij_crop api (tileRect step overlap x y) ip))
                 (py_max (edgeDirections api (ij_crop api (tileRect step overlap x y) ip))) = Inr maxi \<and>
              row_PrincipalDirection r = principalDirection maxi 8))"

definition tilePrimsOk :: "int \<Rightarrow> int \<Rightarrow> int \<Rightarrow> int \<Rightarrow> nat \<Rightarrow> primitive list \<Rightarrow> bool" where
  "tilePrimsOk step overlap x y n ps =
     (\<exists>arr col. ps = [RectRoi (tileRect step overlap x y) tileRoiColour, ArrowRoi arr col,
                      TextRoi (x + step div 2 - 10) (y + 6) (str (int n)) cyan])"

text \<open>The slice \<open>run\<close> selects (\<open>actin\<close>), the image it analyses (\<open>proc\<close>) and the
  title it uses; the mean of the slice with argument \<open>z\<close>.\<close>

definition selectedSlice :: "'ip imagej \<Rightarrow> 'ip imageplus \<Rightarrow> 'ip" where
  "selectedSlice api imp = imp_processor imp (snd (selectSlice api imp))"

definition analysed :: "'ip imagej \<Rightarrow> 'ip imageplus \<Rightarrow> 'ip" where
  "analysed api imp = process api (selectedSlice api imp)"

definition runTitle :: "'ip imagej \<Rightarrow> 'ip imageplus \<Rightarrow> string" where
  "runTitle api imp = imp_title imp @ ''-Z'' @ str (snd (selectSlice api imp))"

definition sliceMean :: "'ip imagej \<Rightarrow> 'ip imageplus \<Rightarrow> int \<Rightarrow> real" where
  "sliceMean api imp z = ij_mean api (imp_processor imp z)"

text \<open>The kind of an overlay element.\<close>

datatype kind = Rectangle | Arrow | Label

fun kindOf :: "primitive \<Rightarrow> kind" where
  "kindOf (RectRoi r c) = Rectangle"
| "kindOf (ArrowRoi a c) = Arrow"
| "kindOf (TextRoi x y s c) = Label"

subsection \<open>A test double of ImageJ\<close>

text \<open>
  For concrete runs: a processor is described by how it was obtained. A raw image has a
  size and a mean; the mean of a band-passed image is 3, and the mean of a convolved tile
  is 2 for a kernel whose first weight is 5 and 1 for the others.
\<close>

datatype test_ip =
  Raw int int real
| Blurred real test_ip
| Difference test_ip test_ip
| Cropped roi test_ip
| Convolved "int list" test_ip

fun test_width :: "test_ip \<Rightarrow> int" where
  "test_width (Raw w h m) = w"
| "test_width (Blurred sigma ip) = test_width ip"
| "test_width (Difference ip sub) = test_width ip"
| "test_width (Cropped r ip) = roi_width r"
| "test_width (Convolved k ip) = test_width ip"

fun test_height :: "test_ip \<Rightarrow> int" where
  "test_height (Raw w h m) = h"
| "test_height (Blurred sigma ip) = test_height ip"
| "test_height (Difference ip sub) = test_height ip"
| "test_height (Cropped r ip) = roi_height r"
| "test_height (Convolved k ip) = test_height ip"

fun test_mean :: "test_ip \<Rightarrow> real" where
  "test_mean (Raw w h m) = m"
| "test_mean (Blurred sigma ip) = test_mean ip"
| "test_mean (Difference ip sub) = 3"
| "test_mean (Cropped r ip) = test_mean ip"
| "test_mean (Convolved k ip) = (if hd k = 5 then 2 else 1)"

definition test_api :: "test_ip imagej" where
  "test_api = \<lparr>ij_getWidth = test_width, ij_getHeight = test_height, ij_blur = Blurred,
     ij_subtract = Difference, ij_crop = Cropped, ij_convolve = Convolved,
     ij_mean = test_mean\<rparr>"

definition unit_cal :: calibration where
  "unit_cal = \<lparr>pixelWidth = 1, pixelHeight = 1\<rparr>"

text \<open>A test image of the given size, with the given slice means.\<close>

definition test_image :: "string \<Rightarrow> int \<Rightarrow> int \<Rightarrow> real list \<Rightarrow> test_ip imageplus" where
  "test_image name w h means =
     \<lparr>imp_title = name, imp_cal = unit_cal, imp_nSlices = int (length means),
      imp_processor = (\<lambda>z. Raw w h (if 0 \<le> z \<and> z < int (length means) then means ! nat z else 0))\<rparr>"

section \<open>Properties\<close>

subsection \<open>Python list helpers\<close>

lemma fold_max_eq: "fold (\<lambda>v m. if v > m then v else m) xs (x::real) = fold max xs x"
proof -
  have "(\<lambda>v m. if v > m then v else m) = (max :: real \<Rightarrow> real \<Rightarrow> real)"
    by (auto simp: fun_eq_iff max_def)
  then show ?thesis by simp
qed


lemma py_max_Max: "xs \<noteq> [] \<Longrightarrow> py_max xs = Max (set xs)"
  by (cases xs) (simp_all add: fold_max_eq Max.set_eq_fold del: set_simps)


lemma py_index_mem: "v \<in> set xs \<Longrightarrow> \<exists>i. py_index xs v = Inr i \<and> i < length xs \<and> xs ! i = v \<and> (\<forall>j<i. xs ! j \<noteq> v)"
proof (induction xs)
  case Nil then show ?case by simp
next
  case (Cons x xs)
  show ?case
  proof (cases "x = v")
    case True then show ?thesis by simp
  next
    case False
    with Cons obtain i where i: "py_index xs v = Inr i" "i < length xs" "xs ! i = v" "\<forall>j<i. xs ! j \<noteq> v"
      by auto
    have "\<forall>j<Suc i. (x # xs) ! j \<noteq> v"
      using False i(4) by (auto simp: less_Suc_eq_0_disj)
    with False i show ?thesis by simp
  qed
qed


lemma allEqual_iff: "allEqual xs = (\<forall>a\<in>set xs. \<forall>b\<in>set xs. a = b)"
  proof (cases xs)
  case Nil then show ?thesis by simp
next
  case (Cons h t)
  have "(\<forall>y\<in>set t. y = h) = (\<forall>a\<in>insert h (set t). \<forall>b\<in>insert h (set t). a = b)"
    by (metis insert_iff)
  with Cons show ?thesis by (simp add: list_all_iff del: ball_simps)
qed

lemma nonneg_sum_min:
  assumes "xs \<noteq> []" "\<forall>x\<in>set xs. 0 \<le> (x::real)" "\<not> allEqual xs"
  shows "sum_list xs \<noteq> Min (set xs)"
proof
  assume eq: "sum_list xs = Min (set xs)"
  define m where "m = Min (set xs)"
  have m_in: "m \<in> set xs" unfolding m_def using assms(1) by simp
  have "sum_list xs = m + sum_list (remove1 m xs)"
    using m_in sum_list_map_remove1[of m xs id] by simp
  then have z: "sum_list (remove1 m xs) = 0" using eq m_def by simp
  have nn: "\<forall>x\<in>set (remove1 m xs). 0 \<le> x"
    using assms(2) by (meson notin_set_remove1)
  have all0: "\<forall>x\<in>set (remove1 m xs). x = 0"
    using z nn by (simp add: sum_list_nonneg_eq_0_iff)
  from assms(3) obtain a b where ab: "a \<in> set xs" "b \<in> set xs" "a \<noteq> b"
    by (auto simp: allEqual_iff)
  show False
  proof (cases "remove1 m xs = []")
    case True
    have "set xs \<subseteq> insert m (set (remove1 m xs))" by (metis insert_iff in_set_remove1 subsetI)
    with True ab show False by auto
  next
    case False
    then obtain z where zin: "z \<in> set (remove1 m xs)" by (cases "remove1 m xs") auto
    with all0 have z0: "z = 0" by simp
    have "z \<in> set xs" using zin by (meson notin_set_remove1)
    then have "m \<le> 0" unfolding m_def using z0 by (metis List.finite_set Min_le)
    moreover have "0 \<le> m" using assms(2) m_in by simp
    ultimately have m0: "m = 0" by simp
    have sub: "set xs \<subseteq> insert m (set (remove1 m xs))" by (metis insert_iff in_set_remove1 subsetI)
    have "a = 0" using ab(1) sub all0 m0 by auto
    moreover have "b = 0" using ab(2) sub all0 m0 by auto
    ultimately show False using ab(3) by simp
  qed
qed

subsection \<open>The tile loops\<close>

lemma visit_append:
  "visit f (ts @ us) s = (case visit f ts s of Inl e \<Rightarrow> Inl e | Inr s' \<Rightarrow> visit f us s')"
  by (induction ts arbitrary: s) (auto split: sum.splits)

lemma visit_map_pair:
  "visit (\<lambda>(x, y). g x y) (map (\<lambda>x. (x, y)) xs) s = visit (\<lambda>x. g x y) xs s"
  by (induction xs arbitrary: s) (auto split: sum.splits)

lemma xLoop_visit:
  "xLoop body W H step y xs s =
     visit (\<lambda>(x, y). body x y (x + step div 2) (y + step div 2))
       (map (\<lambda>x. (x, y)) (filter (\<lambda>x. \<not> (x + step div 2 > W - 1 \<or> y + step div 2 > H - 1)) xs)) s"
  by (induction xs arbitrary: s) (auto simp: Let_def split: sum.splits)

lemma xLoop_log:
  "xLoop (\<lambda>x y ox oy s. Inr (s @ [(x, y)])) W H step y xs acc =
     Inr (acc @ map (\<lambda>x. (x, y)) (filter (\<lambda>x. \<not> (x + step div 2 > W - 1 \<or> y + step div 2 > H - 1)) xs))"
  by (induction xs arbitrary: acc) (auto simp: Let_def)

lemma yLoop_visit:
  assumes "py_range overlap (W - 1) step = Inr xs"
  shows "yLoop body W H step overlap ys s =
     visit (\<lambda>(x, y). body x y (x + step div 2) (y + step div 2))
       (concat (map (\<lambda>y. map (\<lambda>x. (x, y))
          (filter (\<lambda>x. \<not> (x + step div 2 > W - 1 \<or> y + step div 2 > H - 1)) xs)) ys)) s"
  using assms
  by (induction ys arbitrary: s) (auto simp: xLoop_visit visit_append split: sum.splits)

lemma yLoop_log:
  assumes "py_range overlap (W - 1) step = Inr xs"
  shows "yLoop (\<lambda>x y ox oy s. Inr (s @ [(x, y)])) W H step overlap ys acc =
     Inr (acc @ concat (map (\<lambda>y. map (\<lambda>x. (x, y))
          (filter (\<lambda>x. \<not> (x + step div 2 > W - 1 \<or> y + step div 2 > H - 1)) xs)) ys))"
  using assms
  by (induction ys arbitrary: acc) (auto simp: xLoop_log)

lemma py_range_cases:
  "(step = 0 \<and> py_range a b step = Inl ValueError) \<or> (step \<noteq> 0 \<and> (\<exists>xs. py_range a b step = Inr xs))"
  by (auto simp: py_range_def)

lemma tileLoops_visit:
  "tileLoops body W H step overlap s =
     (case visitedTiles W H step overlap of
        Inl e \<Rightarrow> Inl e
      | Inr ts \<Rightarrow> visit (\<lambda>(x, y). body x y (x + step div 2) (y + step div 2)) ts s)"
proof (cases "step = 0")
  case True
  then show ?thesis by (simp add: tileLoops_def visitedTiles_def py_range_def)
next
  case False
  then obtain xs ys where r: "py_range overlap (W - 1) step = Inr xs" "py_range overlap (H - 1) step = Inr ys"
    by (cases "0 < step") (auto simp: py_range_def)
  have v: "visitedTiles W H step overlap =
     Inr (concat (map (\<lambda>y. map (\<lambda>x. (x, y))
          (filter (\<lambda>x. \<not> (x + step div 2 > W - 1 \<or> y + step div 2 > H - 1)) xs)) ys))"
    by (simp add: visitedTiles_def tileLoops_def r(2) yLoop_log[OF r(1)])
  show ?thesis
    unfolding v by (simp add: tileLoops_def r(2) yLoop_visit[OF r(1)])
qed












subsection \<open>The loop body\<close>

lemma edgeDirections_length: "length (edgeDirections api ip) = 8"
  by (simp add: edgeDirections_def dirKernels_def)

lemma edgeDirections_nonempty: "edgeDirections api ip \<noteq> []"
  using edgeDirections_length[of api ip] by auto

lemma py_index_max: "xs \<noteq> [] \<Longrightarrow> \<exists>i. py_index xs (py_max xs) = Inr i \<and> i < length xs"
proof -
  assume ne: "xs \<noteq> []"
  then have "py_max xs \<in> set xs" by (simp add: py_max_Max)
  from py_index_mem[OF this] show ?thesis by blast
qed

lemma tileRect_eq:
  "\<lparr>roi_x = x - overlap, roi_y = y - overlap, roi_width = step + overlap * 2,
    roi_height = step + overlap * 2\<rparr> = tileRect step overlap x y"
  by (simp add: tileRect_def)

lemma setRow_append: "setRow rows (length rows) r = rows @ [r]"
  by (simp add: setRow_def)

lemma tileBody_raise:
  "tileScore (edgeDirections api (ij_crop api (tileRect step overlap x y) ip)) = Inl e \<Longrightarrow>
   tileBody api ip title step overlap x y ox oy (g, ol, row) = Inl e"
  by (simp add: tileBody_def tileRect_eq Let_def)

lemma tileBody_unbound:
  "cal g = None \<Longrightarrow> \<exists>e. tileBody api ip title step overlap x y ox oy (g, ol, row) = Inl e"
  by (simp add: tileBody_def tileRect_eq Let_def split: sum.splits)

lemma tileBody_ok:
  assumes "tileScore (edgeDirections api (ij_crop api (tileRect step overlap x y) ip)) = Inr score"
    and "cal g = Some c"
  shows "\<exists>r ps. tileBody api ip title step overlap x y (x + step div 2) (y + step div 2)
             (g, ol, int (length (rt g))) =
           Inr (g\<lparr>rt := rt g @ [r]\<rparr>, ol @ ps, int (length (rt g)) + 1) \<and>
         tileRowOk api ip title step overlap c x y (length (rt g)) r \<and>
         tilePrimsOk step overlap x y (length (rt g)) ps"
proof -
  let ?e = "edgeDirections api (ij_crop api (tileRect step overlap x y) ip)"
  obtain maxi where m: "py_index ?e (py_max ?e) = Inr maxi"
    using py_index_max[OF edgeDirections_nonempty[of api "ij_crop api (tileRect step overlap x y) ip"]]
    by blast
  define r where "r = \<lparr>row_Image = title, row_Tile = int (length (rt g)),
      row_X = real_of_int (x + step div 2) * pixelWidth c,
      row_Y = real_of_int (y + step div 2) * pixelHeight c,
      row_FibreIntensity = ij_mean api (ij_crop api (tileRect step overlap x y) ip),
      row_PrincipalDirection = principalDirection maxi 8, row_Score = score\<rparr>"
  define theta where "theta = principalDirection maxi 8"
  define arr where "arr = \<lparr>arrow_x1 = real_of_int (x + step div 2) - cos theta * 20,
      arrow_y1 = real_of_int (y + step div 2) + sin theta * 20,
      arrow_x2 = real_of_int (x + step div 2) + cos theta * 20,
      arrow_y2 = real_of_int (y + step div 2) - sin theta * 20,
      arrow_open = True, arrow_doubleHeaded = True,
      arrow_strokeWidth = 4, arrow_headSize = 4\<rparr>"
  define col where "col = \<lparr>red = 1 - max 0 (min score 1), green = max 0 (min score 1),
      blue = max 0 (min score 1) / 2, alpha = 1\<rparr>"
  define ps where "ps = [RectRoi (tileRect step overlap x y) tileRoiColour, ArrowRoi arr col,
      TextRoi (x + step div 2 - 10) (y + 6) (str (int (length (rt g)))) cyan]"
  have "tileBody api ip title step overlap x y (x + step div 2) (y + step div 2)
             (g, ol, int (length (rt g))) =
           Inr (g\<lparr>rt := rt g @ [r]\<rparr>, ol @ ps, int (length (rt g)) + 1)"
    using assms m
    by (simp add: tileBody_def tileRect_eq Let_def setRow_append edgeDirections_length
        r_def ps_def arr_def col_def theta_def)
  moreover have "tileRowOk api ip title step overlap c x y (length (rt g)) r"
    using assms m by (simp add: tileRowOk_def r_def)
  moreover have "tilePrimsOk step overlap x y (length (rt g)) ps"
    by (auto simp: tilePrimsOk_def ps_def)
  ultimately show ?thesis by blast
qed

lemma tileBody_Inr_cases:
  assumes "tileBody api ip title step overlap x y ox oy (g, ol, row) = Inr s'"
  shows "\<exists>score c. tileScore (edgeDirections api (ij_crop api (tileRect step overlap x y) ip)) = Inr score \<and> cal g = Some c"
proof (cases "tileScore (edgeDirections api (ij_crop api (tileRect step overlap x y) ip))")
  case (Inl e)
  with tileBody_raise[OF Inl] assms show ?thesis by simp
next
  case (Inr score)
  show ?thesis
  proof (cases "cal g")
    case None
    with tileBody_unbound[OF None, of api ip title step overlap x y ox oy ol row] assms
    show ?thesis by auto
  next
    case (Some c)
    with Inr show ?thesis by simp
  qed
qed

lemma visit_tiles:
  assumes "visit (\<lambda>(x, y). tileBody api ip title step overlap x y (x + step div 2) (y + step div 2)) ts
             (g, ol, int (length (rt g))) = Inr (g', ol', row')"
  shows "\<exists>rs pss. g' = g\<lparr>rt := rt g @ rs\<rparr> \<and> ol' = ol @ concat pss \<and>
           row' = int (length (rt g) + length ts) \<and>
           list_all2 (\<lambda>(n, (x, y)) r. tileRowOk api ip title step overlap (the (cal g)) x y n r)
             (enumerate (length (rt g)) ts) rs \<and>
           list_all2 (\<lambda>(n, (x, y)) ps. tilePrimsOk step overlap x y n ps)
             (enumerate (length (rt g)) ts) pss"
  using assms
proof (induction ts arbitrary: g ol)
  case Nil
  then have "g' = g\<lparr>rt := rt g @ []\<rparr>" "ol' = ol @ concat []" "row' = int (length (rt g) + length ([] :: (int \<times> int) list))"
    by auto
  then show ?case by (intro exI[of _ "[]"]) (simp add: enumerate_simps)
next
  case (Cons t ts)
  obtain x y where t: "t = (x, y)" by (cases t)
  let ?f = "\<lambda>(x, y). tileBody api ip title step overlap x y (x + step div 2) (y + step div 2)"
  from Cons.prems t obtain s1 where
    b: "tileBody api ip title step overlap x y (x + step div 2) (y + step div 2)
          (g, ol, int (length (rt g))) = Inr s1"
    and v: "visit ?f ts s1 = Inr (g', ol', row')"
    by (auto split: sum.splits)
  from tileBody_Inr_cases[OF b] obtain score c where
    sc: "tileScore (edgeDirections api (ij_crop api (tileRect step overlap x y) ip)) = Inr score"
    and c: "cal g = Some c" by blast
  from tileBody_ok[OF sc c, of title ol] b obtain r ps where
    s1: "s1 = (g\<lparr>rt := rt g @ [r]\<rparr>, ol @ ps, int (length (rt g)) + 1)"
    and r: "tileRowOk api ip title step overlap c x y (length (rt g)) r"
    and ps: "tilePrimsOk step overlap x y (length (rt g)) ps"
    by auto
  let ?g1 = "g\<lparr>rt := rt g @ [r]\<rparr>"
  have v1: "visit ?f ts (?g1, ol @ ps, int (length (rt ?g1))) = Inr (g', ol', row')"
    using v s1 by (simp add: add.commute)
  from Cons.IH[OF v1] obtain rs pss where
    g': "g' = ?g1\<lparr>rt := rt ?g1 @ rs\<rparr>" and ol': "ol' = (ol @ ps) @ concat pss"
    and row': "row' = int (length (rt ?g1) + length ts)"
    and R: "list_all2 (\<lambda>(n, (x, y)) r. tileRowOk api ip title step overlap (the (cal ?g1)) x y n r)
             (enumerate (length (rt ?g1)) ts) rs"
    and P: "list_all2 (\<lambda>(n, (x, y)) ps. tilePrimsOk step overlap x y n ps)
             (enumerate (length (rt ?g1)) ts) pss"
    by blast
  have "g' = g\<lparr>rt := rt g @ (r # rs)\<rparr>" using g' by simp
  moreover have "ol' = ol @ concat (ps # pss)" using ol' by simp
  moreover have "row' = int (length (rt g) + length (t # ts))" using row' by simp
  moreover have "list_all2 (\<lambda>(n, (x, y)) r. tileRowOk api ip title step overlap (the (cal g)) x y n r)
             (enumerate (length (rt g)) (t # ts)) (r # rs)"
    using R r c t by simp
  moreover have "list_all2 (\<lambda>(n, (x, y)) ps. tilePrimsOk step overlap x y n ps)
             (enumerate (length (rt g)) (t # ts)) (ps # pss)"
    using P ps t by simp
  ultimately show ?case by blast
qed

lemma visit_total:
  assumes "cal g = Some c"
    and "\<forall>(x, y)\<in>set ts. \<exists>score. tileScore (edgeDirections api (ij_crop api (tileRect step overlap x y) ip)) = Inr score"
  shows "\<exists>g' ol' row'. visit (\<lambda>(x, y). tileBody api ip title step overlap x y (x + step div 2) (y + step div 2)) ts
             (g, ol, int (length (rt g))) = Inr (g', ol', row')"
  using assms
proof (induction ts arbitrary: g ol)
  case Nil
  then show ?case by simp
next
  case (Cons t ts)
  obtain x y where t: "t = (x, y)" by (cases t)
  from Cons.prems(2) t obtain score where
    sc: "tileScore (edgeDirections api (ij_crop api (tileRect step overlap x y) ip)) = Inr score"
    by auto
  from tileBody_ok[OF sc Cons.prems(1), of title ol] obtain r ps where
    b: "tileBody api ip title step overlap x y (x + step div 2) (y + step div 2)
          (g, ol, int (length (rt g))) = Inr (g\<lparr>rt := rt g @ [r]\<rparr>, ol @ ps, int (length (rt g)) + 1)"
    by blast
  let ?g1 = "g\<lparr>rt := rt g @ [r]\<rparr>"
  have c1: "cal ?g1 = Some c" using Cons.prems(1) by simp
  have rest: "\<forall>(x, y)\<in>set ts. \<exists>score. tileScore (edgeDirections api (ij_crop api (tileRect step overlap x y) ip)) = Inr score"
    using Cons.prems(2) by simp
  from Cons.IH[OF c1 rest, of "ol @ ps"] obtain g' ol' row' where
    "visit (\<lambda>(x, y). tileBody api ip title step overlap x y (x + step div 2) (y + step div 2)) ts
       (?g1, ol @ ps, int (length (rt ?g1))) = Inr (g', ol', row')" by blast
  then show ?case using b t by (simp add: add.commute)
qed

subsection \<open>The analysis of one image\<close>

lemma list_all2_enumerate:
  "list_all2 (\<lambda>(n, t) r. Q t r) (enumerate n0 ts) rs \<Longrightarrow> list_all2 Q ts rs"
  by (induction ts arbitrary: n0 rs) (auto simp: list_all2_Cons1)

lemma list_all2_enumerate_index:
  "list_all2 (\<lambda>(n, t) r. f r = int n) (enumerate n0 ts) rs \<Longrightarrow>
   map f rs = map int [n0..<n0 + length ts]"
proof (induction ts arbitrary: n0 rs)
  case Nil then show ?case by simp
next
  case (Cons t ts)
  then obtain r rs' where rs: "rs = r # rs'" "f r = int n0"
     "list_all2 (\<lambda>(n, t) r. f r = int n) (enumerate (Suc n0) ts) rs'"
    by (auto simp: list_all2_Cons1)
  from Cons.IH[OF rs(3)] have "map f rs' = map int [Suc n0..<Suc n0 + length ts]" .
  then show ?case using rs by (simp add: upt_conv_Cons del: upt_Suc)
qed

lemma list_all2_mono': "list_all2 P xs ys \<Longrightarrow> (\<And>x y. P x y \<Longrightarrow> Q x y) \<Longrightarrow> list_all2 Q xs ys"
  by (rule list_all2_mono)

lemma tiledAnalysis_nonsquare:
  "ij_getWidth api ip \<noteq> ij_getHeight api ip \<Longrightarrow>
   tiledAnalysis api ip ol title g = Inr (g\<lparr>errors := errors g @ [''Image is not square'']\<rparr>, ol)"
  by (simp add: tiledAnalysis_def Let_def)

lemma tiledAnalysis_square:
  assumes "ij_getWidth api ip = ij_getHeight api ip"
  shows "tiledAnalysis api ip ol title g =
    (case visitedTiles (ij_getHeight api ip) (ij_getHeight api ip) (tileStep (ij_getHeight api ip))
             (tileOverlap (tileStep (ij_getHeight api ip))) of
       Inl e \<Rightarrow> Inl e
     | Inr ts \<Rightarrow>
        (case visit (\<lambda>(x, y). tileBody api ip title (tileStep (ij_getHeight api ip))
                 (tileOverlap (tileStep (ij_getHeight api ip))) x y
                 (x + tileStep (ij_getHeight api ip) div 2) (y + tileStep (ij_getHeight api ip) div 2))
               ts (g, ol, int (length (rt g))) of
           Inl e \<Rightarrow> Inl e
         | Inr (g', ol', row') \<Rightarrow> Inr (g', ol')))"
  using assms
  by (simp add: tiledAnalysis_def Let_def tileLoops_visit split: sum.splits)

lemma tiledAnalysis_result:
  assumes "tiledAnalysis api ip ol title g = Inr (g', ol')"
  shows "\<exists>rs pss. g' = g\<lparr>rt := rt g @ rs,
             errors := errors g @ (if ij_getWidth api ip \<noteq> ij_getHeight api ip then [''Image is not square''] else [])\<rparr> \<and>
           ol' = ol @ concat pss \<and>
           list_all2 (\<lambda>(n, (x, y)) r. tileRowOk api ip title (tileStep (ij_getHeight api ip))
                 (tileOverlap (tileStep (ij_getHeight api ip))) (the (cal g)) x y n r)
             (enumerate (length (rt g)) (imageTiles (ij_getWidth api ip) (ij_getHeight api ip))) rs \<and>
           list_all2 (\<lambda>(n, (x, y)) ps. tilePrimsOk (tileStep (ij_getHeight api ip))
                 (tileOverlap (tileStep (ij_getHeight api ip))) x y n ps)
             (enumerate (length (rt g)) (imageTiles (ij_getWidth api ip) (ij_getHeight api ip))) pss"
proof (cases "ij_getWidth api ip = ij_getHeight api ip")
  case False
  with assms have "g' = g\<lparr>errors := errors g @ [''Image is not square'']\<rparr>" "ol' = ol"
    by (simp_all add: tiledAnalysis_nonsquare)
  with False show ?thesis
    by (intro exI[of _ "[]"]) (simp add: imageTiles_def enumerate_simps)
next
  case True
  let ?H = "ij_getHeight api ip"
  from assms obtain ts where ts: "visitedTiles ?H ?H (tileStep ?H) (tileOverlap (tileStep ?H)) = Inr ts"
    by (auto simp: tiledAnalysis_square[OF True] split: sum.splits)
  with assms obtain row' where
    v: "visit (\<lambda>(x, y). tileBody api ip title (tileStep ?H) (tileOverlap (tileStep ?H)) x y
                 (x + tileStep ?H div 2) (y + tileStep ?H div 2)) ts (g, ol, int (length (rt g)))
        = Inr (g', ol', row')"
    by (auto simp: tiledAnalysis_square[OF True] split: sum.splits)
  have it: "imageTiles (ij_getWidth api ip) ?H = ts" using True ts by (simp add: imageTiles_def)
  from visit_tiles[OF v] obtain rs pss where
    "g' = g\<lparr>rt := rt g @ rs\<rparr>" "ol' = ol @ concat pss"
    "list_all2 (\<lambda>(n, (x, y)) r. tileRowOk api ip title (tileStep ?H) (tileOverlap (tileStep ?H)) (the (cal g)) x y n r)
             (enumerate (length (rt g)) ts) rs"
    "list_all2 (\<lambda>(n, (x, y)) ps. tilePrimsOk (tileStep ?H) (tileOverlap (tileStep ?H)) x y n ps)
             (enumerate (length (rt g)) ts) pss"
    by blast
  then show ?thesis using True it by auto
qed

lemma tiledAnalysis_total:
  assumes "cal g = Some c"
    and "ij_getWidth api ip \<noteq> ij_getHeight api ip \<or> tileStep (ij_getHeight api ip) \<noteq> 0"
    and "\<And>tile. \<exists>score. tileScore (edgeDirections api tile) = Inr score"
  shows "\<exists>g' ol'. tiledAnalysis api ip ol title g = Inr (g', ol')"
proof (cases "ij_getWidth api ip = ij_getHeight api ip")
  case False
  then show ?thesis by (simp add: tiledAnalysis_nonsquare)
next
  case True
  let ?H = "ij_getHeight api ip"
  from assms(2) True have "tileStep ?H \<noteq> 0" by simp
  then obtain ts where ts: "visitedTiles ?H ?H (tileStep ?H) (tileOverlap (tileStep ?H)) = Inr ts"
    by (cases "0 < tileStep ?H") (auto simp: visitedTiles_def tileLoops_def py_range_def yLoop_log)
  have "\<forall>(x, y)\<in>set ts. \<exists>score. tileScore (edgeDirections api (ij_crop api (tileRect (tileStep ?H) (tileOverlap (tileStep ?H)) x y) ip)) = Inr score"
    using assms(3) by auto
  from visit_total[OF assms(1) this] obtain g' ol' row' where
    "visit (\<lambda>(x, y). tileBody api ip title (tileStep ?H) (tileOverlap (tileStep ?H)) x y
                 (x + tileStep ?H div 2) (y + tileStep ?H div 2)) ts (g, ol, int (length (rt g)))
        = Inr (g', ol', row')" by blast
  then show ?thesis by (simp add: tiledAnalysis_square[OF True] ts)
qed

subsection \<open>The claims on scoring, kernels and the grid\<close>

text \<open>
  Claim C2, as stated, fails: the fold keeps an angle equal to \<open>pi\<close> (the test is
  \<open>theta > pi\<close>) and subtracts \<open>pi\<close> only once, so the index 2 gives exactly \<open>pi\<close>
  and the index 7 gives \<open>5 * pi / 4\<close>; neither is below \<open>pi\<close>.
\<close>

theorem principalDirection_reaches_pi:
  "\<not> (principalDirection 2 8 < pi) \<and> \<not> (principalDirection 7 8 < pi)"
  by (simp add: principalDirection_def rawAngle_def normAngle_def Let_def)

text \<open>
  Claim C2, amended: for a maximal index from 0 to 6 the recorded principal direction
  lies in the closed interval from 0 to \<open>pi\<close>.
\<close>

theorem principalDirection_closed_range:
  assumes "maxi \<le> 6"
  shows "0 \<le> principalDirection maxi 8 \<and> principalDirection maxi 8 \<le> pi"
proof -
  from assms consider "maxi = 0" | "maxi = 1" | "maxi = 2" | "maxi = 3" | "maxi = 4"
    | "maxi = 5" | "maxi = 6"
    by linarith
  then show ?thesis
    by cases (simp_all add: principalDirection_def rawAngle_def normAngle_def Let_def)
qed

text \<open>The amended claim C2 at the index 3.\<close>

theorem principalDirection_closed_range_witness:
  "(3::nat) \<le> 6 \<and> 0 \<le> principalDirection 3 8 \<and> principalDirection 3 8 \<le> pi"
  using principalDirection_closed_range[of 3] by simp

text \<open>The direction recorded for each of the eight indices.\<close>

lemma principalDirection_values:
  "map (\<lambda>i. principalDirection i 8) [0, 1, 2, 3, 4, 5, 6, 7] =
     [pi / 2, 3 * pi / 4, pi, pi / 4, pi / 2, 3 * pi / 4, pi, 5 * pi / 4]"
  by (simp add: principalDirection_def rawAngle_def normAngle_def Let_def)

text \<open>
  Claim C3: eight equal responses. The script divides by \<open>edgeSum - edgeMin\<close>, which is
  seven times the common value: the score is 0 when that value is not 0, and the
  division raises ZeroDivisionError when it is 0.
\<close>

theorem tileScore_all_equal:
  "tileScore (replicate 8 v) = (if v = 0 then Inl ZeroDivisionError else Inr 0)"
  by (simp add: tileScore_def eval_nat_numeral)


text \<open>
  Claim C5: every kernel of the table is a rotation of the first one, but the table is
  not in rotation order. The kernels at the indices 4, 5, 6, 7 are the rotations by 5, 4,
  7 and 6 steps of 45 degrees, so the table is the sequence of successive rotations in
  neither direction.
\<close>

theorem dirKernels_order:
  "dirKernels = map (\<lambda>i. (rot45 ^^ i) (hd dirKernels)) [0, 1, 2, 3, 5, 4, 7, 6] \<and>
   dirKernels \<noteq> rotations rot45 (hd dirKernels) \<and>
   dirKernels \<noteq> rotations rot45_ccw (hd dirKernels)"
  by (simp add: dirKernels_def rotations_def eval_nat_numeral upt_rec)


subsection \<open>Concrete runs with the test double\<close>

lemma test_edgeDirections: "edgeDirections test_api tile = [2, 1, 1, 1, 1, 1, 2, 2]"
  by (simp add: edgeDirections_def dirKernels_def test_api_def)

lemma test_tileScore: "tileScore (edgeDirections test_api tile) = Inr (4 / 5)"
  by (simp add: test_edgeDirections tileScore_def)





end
